theory Spec2Isabelle
  imports Main "HOL-Library.Word"
begin

section \<open>Python strings\<close>

text \<open>
  A Python \<open>str\<close> is modelled as a \<open>string\<close>, a list of \<open>char\<close>, each \<open>char\<close> read as
  one code point in the range 0 to 255. The character classes below are those of
  CPython for that range: \<open>str.isspace\<close> (which is also what \<open>\s\<close> of the \<open>re\<close> module and
  \<open>str.strip\<close> use), \<open>\w\<close> of the \<open>re\<close> module for a \<open>str\<close> pattern, and \<open>str.lower\<close>.
\<close>

definition is_space :: "char \<Rightarrow> bool" where
  "is_space c =
     (let n = (of_char c :: nat)
      in (9 \<le> n \<and> n \<le> 13) \<or> (28 \<le> n \<and> n \<le> 32) \<or> n = 133 \<or> n = 160)"

definition is_word :: "char \<Rightarrow> bool" where
  "is_word c =
     (let n = (of_char c :: nat)
      in (48 \<le> n \<and> n \<le> 57) \<or> (65 \<le> n \<and> n \<le> 90) \<or> n = 95 \<or> (97 \<le> n \<and> n \<le> 122)
         \<or> n = 170 \<or> n = 178 \<or> n = 179 \<or> n = 181 \<or> n = 185 \<or> n = 186
         \<or> (188 \<le> n \<and> n \<le> 190) \<or> (192 \<le> n \<and> n \<le> 214) \<or> (216 \<le> n \<and> n \<le> 246)
         \<or> 248 \<le> n)"

definition lower_char :: "char \<Rightarrow> char" where
  "lower_char c =
     (let n = (of_char c :: nat)
      in if (65 \<le> n \<and> n \<le> 90) \<or> (192 \<le> n \<and> n \<le> 222 \<and> n \<noteq> 215)
         then char_of (n + 32) else c)"

definition lower :: "string \<Rightarrow> string" where
  "lower s = map lower_char s"

definition lstrip :: "string \<Rightarrow> string" where
  "lstrip s = dropWhile is_space s"

definition rstrip :: "string \<Rightarrow> string" where
  "rstrip s = rev (dropWhile is_space (rev s))"

definition strip :: "string \<Rightarrow> string" where
  "strip s = rstrip (lstrip s)"

definition startswith :: "string \<Rightarrow> string \<Rightarrow> bool" where
  "startswith s p = (take (length p) s = p)"

definition endswith :: "string \<Rightarrow> string \<Rightarrow> bool" where
  "endswith s p = startswith (rev s) (rev p)"

text \<open>\<open>p in s\<close> for two strings: \<open>p\<close> occurs in \<open>s\<close> as a contiguous substring.\<close>

fun contains :: "string \<Rightarrow> string \<Rightarrow> bool" where
  "contains [] p = (p = [])"
| "contains (c # cs) p = (startswith (c # cs) p \<or> contains cs p)"

text \<open>\<open>s.split(sep)\<close> for a one-character separator: never the empty list.\<close>

fun split_on :: "char \<Rightarrow> string \<Rightarrow> string list" where
  "split_on sep [] = [[]]"
| "split_on sep (c # cs) =
     (if c = sep then [] # split_on sep cs
      else (let ws = split_on sep cs in (c # hd ws) # tl ws))"

fun join :: "string \<Rightarrow> string list \<Rightarrow> string" where
  "join sep [] = []"
| "join sep [x] = x"
| "join sep (x # y # ys) = x @ sep @ join sep (y # ys)"

text \<open>
  \<open>re.sub\<close> of a pattern \<open>[class]+\<close> by a one-character replacement: scanning from the
  left, every maximal run of characters of the class becomes the replacement.
\<close>

function sub_runs :: "(char \<Rightarrow> bool) \<Rightarrow> char \<Rightarrow> string \<Rightarrow> string" where
  "sub_runs P r [] = []"
| "sub_runs P r (c # cs) =
     (if P c then r # sub_runs P r (dropWhile P cs) else c # sub_runs P r cs)"
  by pat_completeness auto
termination
  by (relation "measure (\<lambda>(P, r, cs). length cs)")
     (auto simp: less_Suc_eq_le length_dropWhile_le)

text \<open>An exception value: its class, as far as the source tells classes apart, and \<open>str(e)\<close>.\<close>

datatype error = Exception string | ValueError string

fun str_of :: "error \<Rightarrow> string" where
  "str_of (Exception m) = m"
| "str_of (ValueError m) = m"

section \<open>file\_processor.py\<close>

text \<open>
  \<open>FileProcessor._clean_text\<close>: the three substitutions in the order of the source, then
  \<open>strip\<close>. The whitelist of the third pattern is \<open>\w\<close>, \<open>\s\<close> and the punctuation
  \<open>- . , ; : ( ) [ ] / @ # % & +\<close>.
\<close>

definition allowed :: "char \<Rightarrow> bool" where
  "allowed c = (is_word c \<or> is_space c \<or> c \<in> set ''-.,;:()[]/@#%&+'')"

definition clean_text :: "string \<Rightarrow> string" where
  "clean_text text =
     (if text = [] then []
      else (let t1 = sub_runs (\<lambda>c. c = CHR 0x0A) (CHR 0x0A) text;
                t2 = sub_runs is_space (CHR '' '') t1;
                t3 = filter allowed t2
            in strip t3))"

text \<open>
  The two decoding libraries are parameters: \<open>pdf_reader\<close> is \<open>PyPDF2.PdfReader\<close> followed
  by \<open>extract_text\<close> on every page, \<open>document\<close> is \<open>docx.Document\<close>. Each either raises
  (\<open>Inl\<close> of the exception's text) or yields what the source reads from the decoded
  object.
\<close>

type_synonym bytes = "8 word list"

record docx =
  paragraphs :: "string list"
  tables :: "string list list list"

type_synonym pdf_reader = "bytes \<Rightarrow> string + string list"

type_synonym document = "bytes \<Rightarrow> string + docx"

record upload_file =
  filename :: string
  read :: "string + bytes"

definition extract_from_pdf :: "pdf_reader \<Rightarrow> bytes \<Rightarrow> error + string" where
  "extract_from_pdf reader content_bytes =
     (case reader content_bytes of
        Inl e \<Rightarrow> Inl (Exception (''Failed to extract PDF text: '' @ e))
      | Inr pages \<Rightarrow>
          Inr (clean_text
                 (concat (map (\<lambda>page_text. if page_text \<noteq> [] then page_text @ [CHR 0x0A] else [])
                    pages))))"

definition extract_from_word :: "document \<Rightarrow> bytes \<Rightarrow> error + string" where
  "extract_from_word doc_reader content_bytes =
     (case doc_reader content_bytes of
        Inl e \<Rightarrow> Inl (Exception (''Failed to extract Word document text: '' @ e))
      | Inr doc \<Rightarrow>
          Inr (clean_text
                 (concat (map (\<lambda>paragraph. paragraph @ [CHR 0x0A]) (paragraphs doc))
                  @ concat (map (\<lambda>table.
                      concat (map (\<lambda>row. concat (map (\<lambda>cell. cell @ '' '') row) @ [CHR 0x0A])
                        table))
                      (tables doc)))))"

definition file_extension :: "string \<Rightarrow> string" where
  "file_extension name = last (split_on (CHR ''.'') (lower name))"

definition extract_text :: "pdf_reader \<Rightarrow> document \<Rightarrow> upload_file \<Rightarrow> error + string" where
  "extract_text reader doc_reader file =
     (let ext = file_extension (filename file);
          r = (case read file of
                 Inl e \<Rightarrow> Inl (Exception e)
               | Inr content_bytes \<Rightarrow>
                   if ext = ''pdf'' then extract_from_pdf reader content_bytes
                   else if ext \<in> set [''doc'', ''docx''] then extract_from_word doc_reader content_bytes
                   else Inl (ValueError (''Unsupported file type: '' @ ext)))
      in case r of
           Inl e \<Rightarrow> Inl (Exception (''Error processing file: '' @ str_of e))
         | Inr t \<Rightarrow> Inr t)"

text \<open>The part of a name after its last dot; the whole name when it has no dot.\<close>

definition after_last_dot :: "string \<Rightarrow> string" where
  "after_last_dot name = rev (takeWhile (\<lambda>c. c \<noteq> CHR ''.'') (rev name))"

text \<open>
  A text in which every whitespace character is a single blank followed by a
  non-whitespace character or by the end of the text.
\<close>

fun collapsed :: "string \<Rightarrow> bool" where
  "collapsed [] = True"
| "collapsed [c] = (is_space c \<longrightarrow> c = CHR '' '')"
| "collapsed (c # d # cs) =
     ((is_space c \<longrightarrow> c = CHR '' '' \<and> \<not> is_space d) \<and> collapsed (d # cs))"

section \<open>cv\_analyzer.py: construction and the fallback cascade\<close>

record analyzer =
  github_token :: string
  model_endpoint :: string
  model_id :: string
  model_candidates :: "string list"

type_synonym environ = "string \<rightharpoonup> string"

definition getenv :: "environ \<Rightarrow> string \<Rightarrow> string \<Rightarrow> string" where
  "getenv env k d = (case env k of None \<Rightarrow> d | Some v \<Rightarrow> v)"

definition candidates_listed :: "string \<Rightarrow> string list" where
  "candidates_listed candidates_from_env =
     map strip (filter (\<lambda>m. strip m \<noteq> []) (split_on (CHR '','') candidates_from_env))"

definition init :: "environ \<Rightarrow> error + analyzer" where
  "init env =
     (let token = env ''GITHUB_TOKEN'';
          endpoint = getenv env ''GITHUB_MODEL_ENDPOINT'' ''https://models.github.ai/inference'';
          mid = getenv env ''GITHUB_MODEL_ID'' ''openai/gpt-5'';
          candidates_from_env = strip (getenv env ''GITHUB_MODEL_CANDIDATES'' []);
          listed = candidates_listed candidates_from_env;
          candidates = (if listed \<noteq> [] then listed
                        else [mid, ''openai/gpt-4o-mini'', ''openai/gpt-4o''])
      in case token of
           None \<Rightarrow> Inl (ValueError ''GITHUB_TOKEN environment variable is required'')
         | Some tok \<Rightarrow>
             if tok = [] then Inl (ValueError ''GITHUB_TOKEN environment variable is required'')
             else Inr \<lparr>github_token = tok, model_endpoint = endpoint, model_id = mid,
                       model_candidates = candidates\<rparr>)"

text \<open>
  The model endpoint is a parameter. A response carries its choices, each choice the
  content of its message, or \<open>None\<close> for a choice without a message; \<open>Returns None\<close> is a
  response that is missing. The endpoint is asked with the number of calls this
  cascade has made before, the model identifier and the prompt, so that its answers may
  change from one call to the next.
\<close>

datatype response = Response (choices: "string option list")

datatype call_outcome = Raises string | Returns "response option"

type_synonym service = "nat \<Rightarrow> string \<Rightarrow> string \<Rightarrow> call_outcome"

text \<open>The body of the \<open>try\<close> for one candidate: the message content, or the text of what was raised.\<close>

fun attempt :: "call_outcome \<Rightarrow> string + string" where
  "attempt (Raises t) = Inl t"
| "attempt (Returns None) = Inl ''No response returned from GitHub Models''"
| "attempt (Returns (Some r)) =
     (case choices r of
        [] \<Rightarrow> Inl ''No response returned from GitHub Models''
      | None # _ \<Rightarrow> Inl ''No response returned from GitHub Models''
      | Some message_content # _ \<Rightarrow> Inr message_content)"

definition unavailable_model :: "string \<Rightarrow> bool" where
  "unavailable_model t =
     (let error_text = lower t
      in contains error_text ''unavailable model'' \<or> contains error_text ''unavailable_model''
         \<or> contains error_text ''unknown model'')"

text \<open>
  The loop over the candidates. The result is the list of candidates attempted, in
  order, with either the error raised or the content returned and the candidate that
  returned it.
\<close>

fun try_candidates ::
  "service \<Rightarrow> string \<Rightarrow> string list \<Rightarrow> nat \<Rightarrow> string option \<Rightarrow> string list
   \<Rightarrow> string list \<times> (error + string \<times> string)" where
  "try_candidates svc prompt all_candidates n last_error [] =
     ([], Inl (Exception
        (''Error calling GitHub Models API: none of the candidate models are available. ''
         @ ''Tried: '' @ join '', '' all_candidates @ ''. Last error: ''
         @ (case last_error of None \<Rightarrow> ''None'' | Some t \<Rightarrow> t))))"
| "try_candidates svc prompt all_candidates n last_error (candidate_model # rest) =
     (case attempt (svc n candidate_model prompt) of
        Inr message_content \<Rightarrow> ([candidate_model], Inr (message_content, candidate_model))
      | Inl t \<Rightarrow>
          if unavailable_model t
          then (let (tried, r) = try_candidates svc prompt all_candidates (Suc n) (Some t) rest
                in (candidate_model # tried, r))
          else ([candidate_model], Inl (Exception (''Error calling GitHub Models API: '' @ t))))"

definition call_github_models ::
  "service \<Rightarrow> analyzer \<Rightarrow> string \<Rightarrow> string list \<times> (error + string) \<times> analyzer" where
  "call_github_models svc self prompt =
     (case try_candidates svc prompt (model_candidates self) 0 None (model_candidates self) of
        (tried, Inl e) \<Rightarrow> (tried, Inl e, self)
      | (tried, Inr (message_content, candidate_model)) \<Rightarrow>
          (tried, Inr message_content, self\<lparr>model_id := candidate_model\<rparr>))"

section \<open>cv\_analyzer.py: the reply validator\<close>

text \<open>
  What \<open>json.loads\<close> returns. A float is kept as its literal: the source never computes
  with one. A \<open>dict\<close> is the list of its items in insertion order, without repeated keys.
\<close>

datatype json =
  JNull | JBool bool | JInt int | JFloat string | JStr string
  | JList "json list" | JDict "(string \<times> json) list"

text \<open>
  What \<open>str(e)\<close> is for an exception caught inside the validator: a text that the source
  fixes, or the message of a \<open>TypeError\<close> of the interpreter or of a \<open>ValidationError\<close> of
  pydantic, whose wording the source does not fix. \<open>Wrapped p c\<close> is \<open>Exception(p + str(e))\<close>.
\<close>

datatype cause = Message string | TypeError | ValidationError

datatype wrapped = Wrapped string cause

datatype strength = Strength string string

datatype weakness = Weakness string string string

record analysis_result =
  match_percentage :: int
  strengths :: "strength list"
  weaknesses :: "weakness list"
  summary :: string

definition and_then :: "'e + 'a \<Rightarrow> ('a \<Rightarrow> 'e + 'b) \<Rightarrow> 'e + 'b" where
  "and_then r f = (case r of Inl e \<Rightarrow> Inl e | Inr x \<Rightarrow> f x)"

fun map_result :: "('a \<Rightarrow> 'e + 'b) \<Rightarrow> 'a list \<Rightarrow> 'e + 'b list" where
  "map_result f [] = Inr []"
| "map_result f (x # xs) =
     and_then (f x) (\<lambda>y. and_then (map_result f xs) (\<lambda>ys. Inr (y # ys)))"

text \<open>\<open>key in data\<close>, \<open>data[key]\<close> and \<open>for x in data\<close> for a string key and a parsed value.\<close>

fun py_in :: "string \<Rightarrow> json \<Rightarrow> cause + bool" where
  "py_in k (JDict kvs) = Inr (k \<in> set (map fst kvs))"
| "py_in k (JList xs) = Inr (JStr k \<in> set xs)"
| "py_in k (JStr s) = Inr (contains s k)"
| "py_in k _ = Inl TypeError"

fun py_getitem :: "json \<Rightarrow> string \<Rightarrow> cause + json" where
  "py_getitem (JDict kvs) k =
     (case map_of kvs k of
        None \<Rightarrow> Inl (Message ([CHR 0x27] @ k @ [CHR 0x27]))
      | Some v \<Rightarrow> Inr v)"
| "py_getitem _ k = Inl TypeError"

fun py_iter :: "json \<Rightarrow> cause + json list" where
  "py_iter (JList xs) = Inr xs"
| "py_iter (JDict kvs) = Inr (map (\<lambda>kv. JStr (fst kv)) kvs)"
| "py_iter (JStr s) = Inr (map (\<lambda>c. JStr [c]) s)"
| "py_iter _ = Inl TypeError"

text \<open>\<open>isinstance(v, int)\<close>: \<open>bool\<close> is a subclass of \<open>int\<close>, with \<open>True == 1\<close> and \<open>False == 0\<close>.\<close>

fun isinstance_int :: "json \<Rightarrow> bool" where
  "isinstance_int (JInt n) = True"
| "isinstance_int (JBool b) = True"
| "isinstance_int _ = False"

fun int_value :: "json \<Rightarrow> int" where
  "int_value (JInt n) = n"
| "int_value (JBool b) = (if b then 1 else 0)"
| "int_value _ = 0"

text \<open>
  A field of a pydantic model declared \<open>str\<close> takes a \<open>str\<close> and rejects every other
  parsed value; a field declared \<open>int\<close> takes an \<open>int\<close>, and a \<open>bool\<close> as 1 or 0.
\<close>

fun str_field :: "json \<Rightarrow> cause + string" where
  "str_field (JStr s) = Inr s"
| "str_field _ = Inl ValidationError"

function str_nat :: "nat \<Rightarrow> string" where
  "str_nat n =
     (if n < 10 then [char_of (48 + n)] else str_nat (n div 10) @ [char_of (48 + n mod 10)])"
  by pat_completeness auto
termination
  by (relation "measure (\<lambda>n. n)") auto

fun check_required :: "string \<Rightarrow> string list \<Rightarrow> json \<Rightarrow> cause + unit" where
  "check_required what [] d = Inr ()"
| "check_required what (field # others) d =
     and_then (py_in field d) (\<lambda>present.
       if \<not> present then Inl (Message (what @ field))
       else check_required what others d)"

definition parse_strength :: "json \<Rightarrow> cause + strength" where
  "parse_strength strength_data =
     and_then (py_in ''title'' strength_data) (\<lambda>has_title.
       if \<not> has_title then Inl (Message ''Strength missing title or description'')
       else and_then (py_in ''description'' strength_data) (\<lambda>has_description.
         if \<not> has_description then Inl (Message ''Strength missing title or description'')
         else and_then (py_getitem strength_data ''title'') (\<lambda>t.
              and_then (py_getitem strength_data ''description'') (\<lambda>d.
              and_then (str_field t) (\<lambda>t'.
              and_then (str_field d) (\<lambda>d'. Inr (Strength t' d')))))))"

definition parse_weakness :: "json \<Rightarrow> cause + weakness" where
  "parse_weakness weakness_data =
     and_then (check_required ''Weakness missing '' [''title'', ''description'', ''suggestion'']
                 weakness_data) (\<lambda>_.
     and_then (py_getitem weakness_data ''title'') (\<lambda>t.
     and_then (py_getitem weakness_data ''description'') (\<lambda>d.
     and_then (py_getitem weakness_data ''suggestion'') (\<lambda>s.
     and_then (str_field t) (\<lambda>t'.
     and_then (str_field d) (\<lambda>d'.
     and_then (str_field s) (\<lambda>s'. Inr (Weakness t' d' s'))))))))"

definition count_warnings :: "strength list \<Rightarrow> weakness list \<Rightarrow> string list" where
  "count_warnings ss ws =
     (if length ss \<noteq> 4 then [''Warning: Expected 4 strengths, got '' @ str_nat (length ss)] else [])
     @ (if length ws \<noteq> 5 then [''Warning: Expected 5 weaknesses, got '' @ str_nat (length ws)]
        else [])"

text \<open>
  The body of the \<open>try\<close> after \<open>json.loads\<close>, in two parts. The first is the checks and
  the two loops, up to the lists of strengths and weaknesses. Then the two counts are
  compared and the warnings printed, and the result is built last, so that a failure
  there comes after the warnings. The value is the lines printed and either the cause
  of the failure or the result.
\<close>

definition parse_fields :: "json \<Rightarrow> cause + json \<times> strength list \<times> weakness list" where
  "parse_fields d =
     and_then (check_required ''Missing required field: ''
                 [''match_percentage'', ''strengths'', ''weaknesses'', ''summary''] d) (\<lambda>_.
     and_then (py_getitem d ''match_percentage'') (\<lambda>mp.
       if \<not> isinstance_int mp \<or> int_value mp < 0 \<or> int_value mp > 100
       then Inl (Message ''Match percentage must be an integer between 0 and 100'')
       else
     and_then (py_getitem d ''strengths'') (\<lambda>sl.
     and_then (py_iter sl) (\<lambda>strength_datas.
     and_then (map_result parse_strength strength_datas) (\<lambda>ss.
     and_then (py_getitem d ''weaknesses'') (\<lambda>wl.
     and_then (py_iter wl) (\<lambda>weakness_datas.
     and_then (map_result parse_weakness weakness_datas) (\<lambda>ws.
       Inr (mp, ss, ws)))))))))"

definition validate :: "json \<Rightarrow> string list \<times> (cause + analysis_result)" where
  "validate d =
     (case parse_fields d of
        Inl c \<Rightarrow> ([], Inl c)
      | Inr (mp, ss, ws) \<Rightarrow>
          (count_warnings ss ws,
           and_then (py_getitem d ''summary'') (\<lambda>sm.
           and_then (str_field sm) (\<lambda>sm'.
             Inr \<lparr>match_percentage = int_value mp, strengths = ss, weaknesses = ws,
                  summary = sm'\<rparr>))))"

text \<open>
  \<open>json.loads\<close> is a parameter. It returns the parsed value, or raises a
  \<open>JSONDecodeError\<close>, or raises another exception (a \<open>ValueError\<close> for an integer literal
  beyond the digit limit of the interpreter, a \<open>RecursionError\<close> for a reply nested too
  deep); the source catches the first apart from the others. Each failure carries \<open>str(e)\<close>.
\<close>

datatype loads_outcome = JSONDecodeError string | LoadsRaises string | Loaded json

definition strip_fences :: "string \<Rightarrow> string" where
  "strip_fences response_text =
     (let r1 = strip response_text;
          r2 = (if startswith r1 ''```json'' then drop 7 r1 else r1);
          r3 = (if endswith r2 ''```'' then take (length r2 - 3) r2 else r2)
      in strip r3)"

definition parse_analysis_response ::
  "(string \<Rightarrow> loads_outcome) \<Rightarrow> string \<Rightarrow> string list \<times> (wrapped + analysis_result)" where
  "parse_analysis_response loads response_text =
     (case loads (strip_fences response_text) of
        JSONDecodeError m \<Rightarrow>
          ([], Inl (Wrapped ''Invalid JSON response from GitHub Models: '' (Message m)))
      | LoadsRaises m \<Rightarrow> ([], Inl (Wrapped ''Error parsing analysis response: '' (Message m)))
      | Loaded d \<Rightarrow>
          (case validate d of
             (printed, Inl c) \<Rightarrow> (printed, Inl (Wrapped ''Error parsing analysis response: '' c))
           | (printed, Inr res) \<Rightarrow> (printed, Inr res)))"

text \<open>A reply entry that carries every required field as a string, and what it is parsed to.\<close>

fun strength_entry :: "json \<Rightarrow> strength option" where
  "strength_entry (JDict kvs) =
     (case (map_of kvs ''title'', map_of kvs ''description'') of
        (Some (JStr t), Some (JStr d)) \<Rightarrow> Some (Strength t d)
      | _ \<Rightarrow> None)"
| "strength_entry _ = None"

fun weakness_entry :: "json \<Rightarrow> weakness option" where
  "weakness_entry (JDict kvs) =
     (case (map_of kvs ''title'', map_of kvs ''description'', map_of kvs ''suggestion'') of
        (Some (JStr t), Some (JStr d), Some (JStr s)) \<Rightarrow> Some (Weakness t d s)
      | _ \<Rightarrow> None)"
| "weakness_entry _ = None"

section \<open>linkedin\_fetcher.py\<close>

text \<open>
  The network and the HTML parser are parameters. \<open>requests.get\<close> raises or returns a
  response with a status code and a body. \<open>BeautifulSoup\<close> yields the parsed page, or
  \<open>None\<close> when it, or a later read of the parsed page, raises. Of a parsed page the
  source reads the string of the title element, the content of the \<open>og:description\<close>
  meta element, and the elements that the selectors match; an element is its name and
  its visible text \<open>get_text(separator=" ", strip=True)\<close>, and \<open>elements\<close> lists the elements
  of the page in document order, which is the order in which \<open>select\<close> returns them.
\<close>

datatype http_outcome = RequestRaises | HttpResponse (status_code: int) (body: string)

datatype tag = Section | MainTag | Div | OtherTag

record element =
  node_tag :: tag
  node_text :: string

record soup =
  title_string :: "string option"
  og_description :: "string option"
  elements :: "element list"

definition section_keywords :: "string list" where
  "section_keywords =
     [''experience'', ''education'', ''skills'', ''certification'', ''projects'', ''about'',
      ''summary'', ''activity'', ''languages'', ''honors'', ''awards'', ''volunteer'']"

text \<open>The loop of \<open>score_section\<close> over the keywords, then the length bonus.\<close>

definition keyword_hits :: "string \<Rightarrow> nat" where
  "keyword_hits node_txt =
     (let lowered = lower node_txt
      in length (filter (\<lambda>kw. contains lowered kw) section_keywords))"

definition score_section :: "string \<Rightarrow> nat" where
  "score_section node_txt = keyword_hits node_txt + min (length node_txt div 200) 5"

text \<open>
  \<open>soup.select(name)\<close>: the positions, in document order, of the elements of that name.
  A candidate is the position of its element in the page, which keeps two elements
  with the same name and text apart, as the parsed nodes are.
\<close>

definition select :: "tag \<Rightarrow> element list \<Rightarrow> nat list" where
  "select t es = filter (\<lambda>i. node_tag (es ! i) = t) [0..<length es]"

definition candidates :: "element list \<Rightarrow> nat list" where
  "candidates es = concat (map (\<lambda>selector. select selector es) [Section, MainTag, Div])"

text \<open>
  \<open>sorted(candidates, key=score_section, reverse=True)[:12]\<close>: a stable sort by
  descending score (\<open>reverse=True\<close> keeps elements of equal key in their original order).
\<close>

definition node_score :: "element list \<Rightarrow> nat \<Rightarrow> nat" where
  "node_score es i = score_section (node_text (es ! i))"

definition top_sections :: "element list \<Rightarrow> nat list" where
  "top_sections es = take 12 (sort_key (\<lambda>i. - int (node_score es i)) (candidates es))"

text \<open>The place of an element name in the list of selectors.\<close>

fun selector_rank :: "tag \<Rightarrow> nat" where
  "selector_rank Section = 0"
| "selector_rank MainTag = 1"
| "selector_rank Div = 2"
| "selector_rank OtherTag = 3"

text \<open>
  The order in which the candidates are collected: by selector first, and in document
  order among the elements of one name.
\<close>

definition collected_before :: "element list \<Rightarrow> nat \<Rightarrow> nat \<Rightarrow> bool" where
  "collected_before es a b =
     (selector_rank (node_tag (es ! a)) < selector_rank (node_tag (es ! b))
      \<or> (node_tag (es ! a) = node_tag (es ! b) \<and> a < b))"

text \<open>
  \<open>re.sub\<close> of \<open>See more|Show more|See less|Show less\<close> by the empty string, ignoring case:
  at each position the alternatives are tried in order.
\<close>

fun remove_artifacts :: "string \<Rightarrow> string" where
  "remove_artifacts [] = []"
| "remove_artifacts (c # cs) =
     (if startswith (lower (c # cs)) ''see more'' then remove_artifacts (drop 7 cs)
      else if startswith (lower (c # cs)) ''show more'' then remove_artifacts (drop 8 cs)
      else if startswith (lower (c # cs)) ''see less'' then remove_artifacts (drop 7 cs)
      else if startswith (lower (c # cs)) ''show less'' then remove_artifacts (drop 8 cs)
      else c # remove_artifacts cs)"

definition fetcher_clean_text :: "string \<Rightarrow> string" where
  "fetcher_clean_text t = strip (remove_artifacts (strip (sub_runs is_space (CHR '' '') t)))"

fun dedupe_from :: "string list \<Rightarrow> string list \<Rightarrow> string list" where
  "dedupe_from seen [] = []"
| "dedupe_from seen (item # items) =
     (let key = take 200 item
      in if key \<notin> set seen then item # dedupe_from (key # seen) items
         else dedupe_from seen items)"

definition dedupe_preserve_order :: "string list \<Rightarrow> string list" where
  "dedupe_preserve_order items = dedupe_from [] items"

definition extract_sections :: "soup \<Rightarrow> string list" where
  "extract_sections page =
     (let page_title = strip (case title_string page of None \<Rightarrow> [] | Some t \<Rightarrow> t);
          from_title = (if page_title \<noteq> [] then [''Title: '' @ page_title] else []);
          from_meta = (case og_description page of
                         None \<Rightarrow> []
                       | Some c \<Rightarrow> if c \<noteq> [] then [''About: '' @ strip c] else []);
          texts = map (\<lambda>i. fetcher_clean_text (node_text (elements page ! i)))
                    (top_sections (elements page))
      in from_title @ from_meta @ filter (\<lambda>t. length t > 200) texts)"

text \<open>The result is the text returned and the URLs that were requested from the network.\<close>

definition fetch_profile_text_sync ::
  "(string \<Rightarrow> http_outcome) \<Rightarrow> (string \<Rightarrow> soup option) \<Rightarrow> string \<Rightarrow> string \<times> string list" where
  "fetch_profile_text_sync requests_get beautiful_soup url =
     (if url = [] \<or> \<not> contains url ''linkedin.com'' then ([], [])
      else (case requests_get url of
              RequestRaises \<Rightarrow> ([], [url])
            | HttpResponse status html \<Rightarrow>
                if status \<noteq> 200 then ([], [url])
                else if list_ex (\<lambda>block. contains (lower html) block)
                          [''signin'', ''login'', ''captcha'', ''enable javascript'']
                then ([], [url])
                else (case beautiful_soup html of
                        None \<Rightarrow> ([], [url])
                      | Some page \<Rightarrow>
                          (take 30000
                             (join [CHR 0x0A, CHR 0x0A]
                                (dedupe_preserve_order (extract_sections page))),
                           [url]))))"

section \<open>Cleaning of extracted document text\<close>

lemma is_space_blank: "is_space (CHR '' '')"
  by (simp add: is_space_def)

lemma is_space_newline: "is_space (CHR 0x0A)"
  by (simp add: is_space_def)

lemma collapsed_Cons_nonspace: "\<not> is_space c \<Longrightarrow> collapsed (c # xs) = collapsed xs"
  by (cases xs) simp_all

lemma collapsed_sub_runs: "collapsed (sub_runs is_space (CHR '' '') s)"
proof (induction "is_space" "CHR '' ''" s rule: sub_runs.induct)
  case 1
  show ?case by simp
next
  case (2 c cs)
  show ?case
  proof (cases "is_space c")
    case True
    show ?thesis
    proof (cases "dropWhile is_space cs")
      case Nil
      with True show ?thesis by (simp del: dropWhile_eq_Nil_conv)
    next
      case (Cons y ys)
      then have "\<not> is_space y"
        using hd_dropWhile [of is_space cs] by simp
      with True Cons 2(1) show ?thesis by simp
    qed
  next
    case False
    with 2(2) show ?thesis by (simp add: collapsed_Cons_nonspace)
  qed
qed

lemma sub_runs_collapsed: "collapsed s \<Longrightarrow> sub_runs is_space (CHR '' '') s = s"
  by (induction s rule: collapsed.induct) auto

lemma collapsed_append: "collapsed (xs @ ys) \<Longrightarrow> collapsed xs \<and> collapsed ys"
proof (induction xs rule: collapsed.induct)
  case 1
  then show ?case by simp
next
  case (2 c)
  then show ?case by (cases ys) auto
next
  case (3 c d cs)
  then show ?case by auto
qed

lemma collapsed_space: "collapsed s \<Longrightarrow> c \<in> set s \<Longrightarrow> is_space c \<Longrightarrow> c = CHR '' ''"
  by (induction s rule: collapsed.induct) auto

lemma sub_runs_none: "\<forall>c\<in>set s. \<not> P c \<Longrightarrow> sub_runs P r s = s"
  by (induction s) auto

lemma set_sub_runs: "set (sub_runs P r s) \<subseteq> insert r (set s)"
proof (induction P r s rule: sub_runs.induct)
  case (1 P r)
  show ?case by simp
next
  case (2 P r c cs)
  show ?case
  proof (cases "P c")
    case True
    with 2(1) have "set (sub_runs P r (dropWhile P cs)) \<subseteq> insert r (set (dropWhile P cs))"
      by simp
    moreover have "set (dropWhile P cs) \<subseteq> set cs"
      by (auto dest: set_dropWhileD)
    ultimately show ?thesis using True by auto
  next
    case False
    with 2(2) show ?thesis by auto
  qed
qed

lemma rstrip_decomp: "rstrip s @ rev (takeWhile is_space (rev s)) = s"
proof -
  have "rev (takeWhile is_space (rev s) @ dropWhile is_space (rev s)) = s"
    by simp
  then show ?thesis
    unfolding rstrip_def rev_append .
qed

lemma lstrip_decomp: "takeWhile is_space s @ lstrip s = s"
  by (simp add: lstrip_def)

lemma collapsed_strip: "collapsed s \<Longrightarrow> collapsed (strip s)"
proof -
  assume a: "collapsed s"
  have "collapsed (takeWhile is_space s @ lstrip s)"
    using a by (simp add: lstrip_decomp)
  then have b: "collapsed (lstrip s)"
    using collapsed_append by blast
  have "collapsed (rstrip (lstrip s) @ rev (takeWhile is_space (rev (lstrip s))))"
    using b by (simp add: rstrip_decomp)
  then show ?thesis
    unfolding strip_def using collapsed_append by blast
qed

lemma set_strip: "set (strip s) \<subseteq> set s"
proof -
  have "set (rstrip t) \<subseteq> set t" for t
    unfolding rstrip_def using set_dropWhileD [of _ is_space "rev t"] by auto
  moreover have "set (lstrip s) \<subseteq> set s"
    unfolding lstrip_def using set_dropWhileD [of _ is_space s] by auto
  ultimately show ?thesis
    unfolding strip_def by blast
qed

lemma rstrip_idem: "rstrip (rstrip s) = rstrip s"
  by (simp add: rstrip_def)

lemma lstrip_fix: "s = [] \<or> \<not> is_space (hd s) \<Longrightarrow> lstrip s = s"
  by (cases s) (auto simp: lstrip_def)

lemma lstrip_head: "lstrip s = [] \<or> \<not> is_space (hd (lstrip s))"
  unfolding lstrip_def using hd_dropWhile [of is_space s] by blast

lemma rstrip_head: "rstrip s \<noteq> [] \<Longrightarrow> hd (rstrip s) = hd s"
proof -
  assume a: "rstrip s \<noteq> []"
  have "hd (rstrip s @ rev (takeWhile is_space (rev s))) = hd (rstrip s)"
    using a by simp
  then show ?thesis by (simp add: rstrip_decomp)
qed

lemma strip_head: "strip s = [] \<or> \<not> is_space (hd (strip s))"
proof (cases "strip s = []")
  case True
  then show ?thesis by simp
next
  case False
  then have ne: "rstrip (lstrip s) \<noteq> []"
    by (simp add: strip_def)
  then have "lstrip s \<noteq> []"
    by (auto simp: rstrip_def)
  then have "\<not> is_space (hd (lstrip s))"
    using lstrip_head [of s] by simp
  then show ?thesis
    using rstrip_head [OF ne] by (simp add: strip_def)
qed

lemma strip_idem: "strip (strip s) = strip s"
proof -
  have "lstrip (strip s) = strip s"
    using strip_head by (rule lstrip_fix)
  then show ?thesis
    by (simp add: strip_def rstrip_idem)
qed

lemma strip_Nil: "strip [] = []"
  by (simp add: strip_def rstrip_def lstrip_def)

lemma allowed_space: "is_space c \<Longrightarrow> allowed c"
  by (simp add: allowed_def)

lemma clean_text_fixed:
  assumes "collapsed u" and "\<forall>c\<in>set u. allowed c" and "strip u = u"
  shows "clean_text u = u"
proof (cases "u = []")
  case True
  then show ?thesis by (simp add: clean_text_def)
next
  case False
  have "\<forall>c\<in>set u. \<not> c = CHR 0x0A"
    using collapsed_space [OF assms(1)] is_space_newline by fastforce
  then have "sub_runs (\<lambda>c. c = CHR 0x0A) (CHR 0x0A) u = u"
    by (rule sub_runs_none)
  moreover have "sub_runs is_space (CHR '' '') u = u"
    using assms(1) by (rule sub_runs_collapsed)
  moreover have "filter allowed u = u"
    using assms(2) by simp
  ultimately show ?thesis
    using False assms(3) by (simp add: clean_text_def)
qed

lemma clean_text_allowed: "\<forall>c\<in>set (clean_text s). allowed c"
proof (cases "s = []")
  case True
  then show ?thesis by (simp add: clean_text_def)
next
  case False
  then show ?thesis
    using set_strip [of "filter allowed (sub_runs is_space (CHR '' '') (sub_runs (\<lambda>c. c = CHR 0x0A) (CHR 0x0A) s))"]
    by (auto simp: clean_text_def Let_def)
qed

lemma clean_text_strip: "strip (clean_text s) = clean_text s"
  by (simp add: clean_text_def Let_def strip_idem strip_Nil)

lemma clean_text_collapsed:
  assumes "\<forall>c\<in>set s. allowed c"
  shows "collapsed (clean_text s)"
proof (cases "s = []")
  case True
  then show ?thesis by (simp add: clean_text_def)
next
  case False
  define t1 where "t1 = sub_runs (\<lambda>c. c = CHR 0x0A) (CHR 0x0A) s"
  define t2 where "t2 = sub_runs is_space (CHR '' '') t1"
  have "set t1 \<subseteq> insert (CHR 0x0A) (set s)"
    unfolding t1_def by (rule set_sub_runs)
  then have a1: "\<forall>c\<in>set t1. allowed c"
    using assms allowed_space [OF is_space_newline] by auto
  have "set t2 \<subseteq> insert (CHR '' '') (set t1)"
    unfolding t2_def by (rule set_sub_runs)
  then have a2: "\<forall>c\<in>set t2. allowed c"
    using a1 allowed_space [OF is_space_blank] by auto
  have eq: "clean_text s = strip t2"
    using False a2 by (simp add: clean_text_def t1_def t2_def)
  have "collapsed (strip t2)"
    unfolding t2_def by (rule collapsed_strip [OF collapsed_sub_runs])
  then show ?thesis by (simp add: eq)
qed

text \<open>
  Where cleaning is idempotent: exactly on the texts whose cleaned form has no two
  blanks side by side, which includes every text made of whitelisted characters.
\<close>

lemma clean_text_idempotent_iff:
  "clean_text (clean_text s) = clean_text s \<longleftrightarrow> collapsed (clean_text s)"
proof
  assume "clean_text (clean_text s) = clean_text s"
  then show "collapsed (clean_text s)"
    using clean_text_collapsed [OF clean_text_allowed, of s] by simp
next
  assume "collapsed (clean_text s)"
  then show "clean_text (clean_text s) = clean_text s"
    using clean_text_allowed clean_text_strip by (rule clean_text_fixed)
qed

lemma clean_text_whitelisted:
  assumes "\<forall>c\<in>set s. allowed c"
  shows "clean_text (clean_text s) = clean_text s"
  using clean_text_collapsed [OF assms] by (simp add: clean_text_idempotent_iff)

lemma clean_text_thrice: "clean_text (clean_text (clean_text s)) = clean_text (clean_text s)"
  using clean_text_allowed by (rule clean_text_whitelisted)

text \<open>
  C5: cleaning a text twice gives the same text as cleaning it once. The source removes
  the characters outside the whitelist after it has collapsed the whitespace, not
  before: in \<open>a ! b\<close> the removed character stood between two blanks, the cleaned text
  \<open>a  b\<close> keeps both, against the comment of the source that excessive whitespace is
  removed, and a second cleaning gives \<open>a b\<close>.
\<close>

theorem clean_text_not_idempotent:
  "clean_text ''a ! b'' = ''a  b'' \<and> clean_text (clean_text ''a ! b'') = ''a b''"
  by code_simp

section \<open>The fallback cascade\<close>

lemma try_candidates_soft_prefix:
  assumes "\<forall>i<length pre. \<exists>t. attempt (svc (n + i) (pre ! i) prompt) = Inl t \<and> unavailable_model t"
  shows "\<exists>last'. (pre = [] \<longrightarrow> last' = last_error) \<and>
           try_candidates svc prompt every n last_error (pre @ rest) =
             (pre @ fst (try_candidates svc prompt every (n + length pre) last' rest),
              snd (try_candidates svc prompt every (n + length pre) last' rest))"
  using assms
proof (induction pre arbitrary: n last_error)
  case Nil
  show ?case by simp
next
  case (Cons a pre)
  from Cons.prems [rule_format, of 0] obtain t
    where t: "attempt (svc n a prompt) = Inl t" "unavailable_model t"
    by auto
  have "\<forall>i<length pre. \<exists>t. attempt (svc (Suc n + i) (pre ! i) prompt) = Inl t \<and> unavailable_model t"
  proof (intro allI impI)
    fix i
    assume "i < length pre"
    then have "Suc i < length (a # pre)" by simp
    from Cons.prems [rule_format, OF this] show
      "\<exists>t. attempt (svc (Suc n + i) (pre ! i) prompt) = Inl t \<and> unavailable_model t"
      by simp
  qed
  from Cons.IH [OF this, of "Some t"] obtain last'
    where "try_candidates svc prompt every (Suc n) (Some t) (pre @ rest) =
             (pre @ fst (try_candidates svc prompt every (Suc n + length pre) last' rest),
              snd (try_candidates svc prompt every (Suc n + length pre) last' rest))"
    by blast
  with t show ?case
    by (intro exI [of _ last']) simp
qed

lemma try_candidates_first:
  "\<exists>others. fst (try_candidates svc prompt every n last_error (y # ys)) = y # others"
  by (auto split: sum.splits prod.splits)

text \<open>
  C1: with the candidates A, B, C, where the calls for A and for B raise an error whose
  text marks the model as unavailable and the call for C returns a response whose first
  choice carries a message, the cascade attempts A, B and C in that order and nothing
  else, returns the content of that message, and records C as the model that worked.
\<close>

theorem cascade_third_candidate_succeeds:
  assumes "model_candidates self = [A, B, C]"
    and "svc 0 A prompt = Raises eA" and "unavailable_model eA"
    and "svc 1 B prompt = Raises eB" and "unavailable_model eB"
    and "svc 2 C prompt = Returns (Some (Response (Some message_content # others)))"
  shows "call_github_models svc self prompt
         = ([A, B, C], Inr message_content, self\<lparr>model_id := C\<rparr>)"
  using assms by (simp add: call_github_models_def numeral_2_eq_2)

theorem cascade_third_candidate_succeeds_witness:
  "unavailable_model ''Unknown model: a'' \<and>
   call_github_models
     (\<lambda>n m p. if m = ''c'' then Returns (Some (Response [Some ''{}'']))
              else Raises (''Unknown model: '' @ m))
     \<lparr>github_token = ''t'', model_endpoint = ''e'', model_id = ''a'',
      model_candidates = [''a'', ''b'', ''c'']\<rparr> ''prompt''
   = ([''a'', ''b'', ''c''], Inr ''{}'',
      \<lparr>github_token = ''t'', model_endpoint = ''e'', model_id = ''c'',
       model_candidates = [''a'', ''b'', ''c'']\<rparr>)"
proof -
  have a: "unavailable_model ''Unknown model: a''"
    by code_simp
  have b: "unavailable_model ''Unknown model: b''"
    by code_simp
  show ?thesis
    using a b
      cascade_third_candidate_succeeds
        [where svc = "\<lambda>n m p. if m = ''c'' then Returns (Some (Response [Some ''{}'']))
                                else Raises (''Unknown model: '' @ m)"
           and self = "\<lparr>github_token = ''t'', model_endpoint = ''e'', model_id = ''a'',
                         model_candidates = [''a'', ''b'', ''c'']\<rparr>"
           and A = "''a''" and B = "''b''" and C = "''c''" and prompt = "''prompt''"
           and eA = "''Unknown model: a''" and eB = "''Unknown model: b''"
           and message_content = "''{}''" and others = "[]"]
    by simp
qed

text \<open>
  C2: when the candidates before \<open>x\<close> have all failed with an unavailable-model text and
  the attempt of \<open>x\<close> fails with the text \<open>t\<close>, the next candidate is attempted exactly when
  \<open>t\<close> contains one of the three substrings, ignoring case; any other failure ends the
  cascade at \<open>x\<close> with the text wrapped in the context message; and when \<open>x\<close> is the last
  candidate and fails softly too, the error lists every candidate and ends with \<open>t\<close>.
\<close>

theorem cascade_failure_classification:
  assumes "model_candidates self = pre @ x # post"
    and "\<forall>i<length pre. \<exists>e. attempt (svc i (pre ! i) prompt) = Inl e \<and> unavailable_model e"
    and "attempt (svc (length pre) x prompt) = Inl t"
  shows "(post \<noteq> [] \<longrightarrow>
            (unavailable_model t \<longleftrightarrow>
             take (length pre + 2) (fst (call_github_models svc self prompt)) = pre @ [x, hd post]))
         \<and> (\<not> unavailable_model t \<longrightarrow>
              call_github_models svc self prompt
              = (pre @ [x], Inl (Exception (''Error calling GitHub Models API: '' @ t)), self))
         \<and> (unavailable_model t \<and> post = [] \<longrightarrow>
              call_github_models svc self prompt
              = (pre @ [x],
                 Inl (Exception
                   (''Error calling GitHub Models API: none of the candidate models are available. Tried: ''
                    @ join '', '' (pre @ [x]) @ ''. Last error: '' @ t)),
                 self))"
proof -
  let ?every = "model_candidates self"
  from assms(2) have "\<forall>i<length pre. \<exists>e. attempt (svc (0 + i) (pre ! i) prompt) = Inl e \<and> unavailable_model e"
    by simp
  from try_candidates_soft_prefix
         [where n = 0 and pre = pre and svc = svc and prompt = prompt and every = "?every"
            and last_error = None and rest = "x # post", OF this]
  obtain last'
    where run: "try_candidates svc prompt ?every 0 None (pre @ x # post) =
             (pre @ fst (try_candidates svc prompt ?every (length pre) last' (x # post)),
              snd (try_candidates svc prompt ?every (length pre) last' (x # post)))"
    by auto
  have hard: "call_github_models svc self prompt
              = (pre @ [x], Inl (Exception (''Error calling GitHub Models API: '' @ t)), self)"
    if "\<not> unavailable_model t"
    using that assms(1,3) run by (simp add: call_github_models_def)
  have exhausted: "call_github_models svc self prompt
              = (pre @ [x],
                 Inl (Exception
                   (''Error calling GitHub Models API: none of the candidate models are available. Tried: ''
                    @ join '', '' (pre @ [x]) @ ''. Last error: '' @ t)),
                 self)"
    if "unavailable_model t" "post = []"
    using that assms(1,3) run by (simp add: call_github_models_def)
  have advance: "take (length pre + 2) (fst (call_github_models svc self prompt)) = pre @ [x, hd post]"
    if "unavailable_model t" "post \<noteq> []"
  proof -
    from that(2) obtain y ys where post: "post = y # ys"
      by (cases post) auto
    obtain others where
      "fst (try_candidates svc prompt ?every (Suc (length pre)) (Some t) (y # ys)) = y # others"
      using try_candidates_first by blast
    then have "fst (try_candidates svc prompt ?every (length pre) last' (x # post)) = x # y # others"
      using that(1) assms(3) post by (simp add: case_prod_beta)
    then have "fst (call_github_models svc self prompt) = pre @ x # y # others"
      using assms(1) run by (simp add: call_github_models_def split: prod.splits sum.splits)
    then show ?thesis
      using post by simp
  qed
  have stop: "take (length pre + 2) (fst (call_github_models svc self prompt)) \<noteq> pre @ [x, hd post]"
    if "\<not> unavailable_model t"
    using hard [OF that] by simp
  show ?thesis
    using hard exhausted advance stop by blast
qed

theorem cascade_failure_classification_witness:
  "\<not> unavailable_model ''rate limit'' \<and>
   call_github_models
     (\<lambda>n m p. if m = ''a'' then Raises ''Unknown model'' else Raises ''rate limit'')
     \<lparr>github_token = ''t'', model_endpoint = ''e'', model_id = ''a'',
      model_candidates = [''a'', ''b'', ''c'']\<rparr> ''prompt''
   = ([''a'', ''b''], Inl (Exception ''Error calling GitHub Models API: rate limit''),
      \<lparr>github_token = ''t'', model_endpoint = ''e'', model_id = ''a'',
       model_candidates = [''a'', ''b'', ''c'']\<rparr>) \<and>
   unavailable_model ''UNAVAILABLE_MODEL'' \<and>
   call_github_models
     (\<lambda>n m p. if m = ''a'' then Raises ''Unknown model'' else Raises ''UNAVAILABLE_MODEL'')
     \<lparr>github_token = ''t'', model_endpoint = ''e'', model_id = ''a'',
      model_candidates = [''a'', ''b'']\<rparr> ''prompt''
   = ([''a'', ''b''],
      Inl (Exception ''Error calling GitHub Models API: none of the candidate models are available. Tried: a, b. Last error: UNAVAILABLE_MODEL''),
      \<lparr>github_token = ''t'', model_endpoint = ''e'', model_id = ''a'',
       model_candidates = [''a'', ''b'']\<rparr>) \<and>
   take 3 (fst (call_github_models
     (\<lambda>n m p. if m = ''a'' then Raises ''Unknown model'' else Raises ''UNAVAILABLE_MODEL'')
     \<lparr>github_token = ''t'', model_endpoint = ''e'', model_id = ''a'',
      model_candidates = [''a'', ''b'', ''c'']\<rparr> ''prompt''))
   = [''a'', ''b'', ''c'']"
proof -
  let ?hard = "\<lambda>(n::nat) (m::string) (p::string).
                 if m = ''a'' then Raises ''Unknown model'' else Raises ''rate limit''"
  let ?soft = "\<lambda>(n::nat) (m::string) (p::string).
                 if m = ''a'' then Raises ''Unknown model'' else Raises ''UNAVAILABLE_MODEL''"
  let ?s3 = "\<lparr>github_token = ''t'', model_endpoint = ''e'', model_id = ''a'',
              model_candidates = [''a'', ''b'', ''c'']\<rparr>"
  let ?s2 = "\<lparr>github_token = ''t'', model_endpoint = ''e'', model_id = ''a'',
              model_candidates = [''a'', ''b'']\<rparr>"
  have u: "unavailable_model ''Unknown model''"
    by code_simp
  have r: "\<not> unavailable_model ''rate limit''"
    by code_simp
  have v: "unavailable_model ''UNAVAILABLE_MODEL''"
    by code_simp
  have c3: "model_candidates ?s3 = [''a''] @ ''b'' # [''c'']"
    by simp
  have c2: "model_candidates ?s2 = [''a''] @ ''b'' # []"
    by simp
  have p3: "\<forall>i<length [''a''].
              \<exists>e. attempt (?hard i ([''a''] ! i) ''prompt'') = Inl e \<and> unavailable_model e"
    using u by simp
  have p2: "\<forall>i<length [''a''].
              \<exists>e. attempt (?soft i ([''a''] ! i) ''prompt'') = Inl e \<and> unavailable_model e"
    using u by simp
  have f3: "attempt (?hard (length [''a'']) ''b'' ''prompt'') = Inl ''rate limit''"
    by simp
  have f2: "attempt (?soft (length [''a'']) ''b'' ''prompt'') = Inl ''UNAVAILABLE_MODEL''"
    by simp
  have "call_github_models ?hard ?s3 ''prompt''
        = ([''a''] @ [''b''],
           Inl (Exception (''Error calling GitHub Models API: '' @ ''rate limit'')), ?s3)"
    using cascade_failure_classification
            [where svc = "?hard" and self = "?s3" and pre = "[''a'']" and x = "''b''"
               and post = "[''c'']" and prompt = "''prompt''" and t = "''rate limit''"]
          c3 p3 f3 r
    by blast
  moreover have "call_github_models ?soft ?s2 ''prompt''
        = ([''a''] @ [''b''],
           Inl (Exception
             (''Error calling GitHub Models API: none of the candidate models are available. Tried: ''
              @ join '', '' ([''a''] @ [''b'']) @ ''. Last error: '' @ ''UNAVAILABLE_MODEL'')), ?s2)"
    using cascade_failure_classification
            [where svc = "?soft" and self = "?s2" and pre = "[''a'']" and x = "''b''"
               and post = "[]" and prompt = "''prompt''" and t = "''UNAVAILABLE_MODEL''"]
          c2 p2 f2 v
    by blast
  moreover have "take (length [''a''] + 2) (fst (call_github_models ?soft ?s3 ''prompt''))
        = [''a''] @ [''b'', hd [''c'']]"
    using cascade_failure_classification
            [where svc = "?soft" and self = "?s3" and pre = "[''a'']" and x = "''b''"
               and post = "[''c'']" and prompt = "''prompt''" and t = "''UNAVAILABLE_MODEL''"]
          c3 p2 f2 v
    by blast
  ultimately show ?thesis
    using r v by (simp add: numeral_3_eq_3)
qed

section \<open>The candidate list of a constructed analyzer\<close>

lemma split_on_not_Nil: "split_on sep s \<noteq> []"
  by (induction s) (auto simp: Let_def)

lemma split_on_pieces: "w \<in> set (split_on sep s) \<Longrightarrow> set w \<subseteq> set s - {sep}"
proof (induction s arbitrary: w)
  case Nil
  then show ?case by simp
next
  case (Cons c cs)
  show ?case
  proof (cases "c = sep")
    case True
    with Cons show ?thesis by auto
  next
    case False
    have ne: "split_on sep cs \<noteq> []"
      by (rule split_on_not_Nil)
    from Cons.prems False have "w = c # hd (split_on sep cs) \<or> w \<in> set (tl (split_on sep cs))"
      by (simp add: Let_def)
    then show ?thesis
    proof
      assume w: "w = c # hd (split_on sep cs)"
      have "hd (split_on sep cs) \<in> set (split_on sep cs)"
        using ne by simp
      from Cons.IH [OF this] w False show ?thesis by auto
    next
      assume "w \<in> set (tl (split_on sep cs))"
      then have "w \<in> set (split_on sep cs)"
        using ne by (auto dest: list.set_sel(2))
      from Cons.IH [OF this] show ?thesis by auto
    qed
  qed
qed

lemma strip_blank:
  assumes "\<forall>c\<in>set w. is_space c"
  shows "strip w = []"
proof -
  have d: "dropWhile is_space w = []"
    using assms by simp
  show ?thesis
    unfolding strip_def lstrip_def rstrip_def d by simp
qed

lemma candidates_listed_blank:
  assumes "\<forall>c\<in>set v. c = CHR '','' \<or> is_space c"
  shows "candidates_listed (strip v) = []"
proof -
  have "strip m = []" if "m \<in> set (split_on (CHR '','') (strip v))" for m
  proof -
    from split_on_pieces [OF that] have "set m \<subseteq> set (strip v) - {CHR '',''}" .
    with set_strip [of v] assms have "\<forall>c\<in>set m. is_space c"
      by blast
    then show ?thesis by (rule strip_blank)
  qed
  then show ?thesis
    by (simp add: candidates_listed_def filter_empty_conv)
qed

text \<open>
  C9: an analyzer that was constructed has a candidate list that is not empty; when the
  override is absent, empty, or made of commas and whitespace only, the list is the
  default of three, headed by the configured model identifier; and a cascade over it
  attempts its first candidate.
\<close>

theorem candidates_never_empty:
  assumes "init env = Inr a"
  shows "model_candidates a \<noteq> []
         \<and> ((\<forall>c\<in>set (getenv env ''GITHUB_MODEL_CANDIDATES'' []). c = CHR '','' \<or> is_space c) \<longrightarrow>
              model_candidates a
              = [getenv env ''GITHUB_MODEL_ID'' ''openai/gpt-5'', ''openai/gpt-4o-mini'',
                 ''openai/gpt-4o''])
         \<and> (\<exists>others. fst (call_github_models svc a prompt) = hd (model_candidates a) # others)"
proof -
  let ?listed = "candidates_listed (strip (getenv env ''GITHUB_MODEL_CANDIDATES'' []))"
  let ?default = "[getenv env ''GITHUB_MODEL_ID'' ''openai/gpt-5'', ''openai/gpt-4o-mini'',
                   ''openai/gpt-4o'']"
  from assms have cands: "model_candidates a = (if ?listed \<noteq> [] then ?listed else ?default)"
    by (auto simp: init_def Let_def split: option.splits if_splits)
  then have ne: "model_candidates a \<noteq> []"
    by (simp split: if_splits)
  have "model_candidates a = ?default"
    if "\<forall>c\<in>set (getenv env ''GITHUB_MODEL_CANDIDATES'' []). c = CHR '','' \<or> is_space c"
    using cands candidates_listed_blank [OF that] by simp
  moreover have "\<exists>others. fst (call_github_models svc a prompt) = hd (model_candidates a) # others"
  proof -
    from ne obtain y ys where c: "model_candidates a = y # ys"
      by (cases "model_candidates a") auto
    obtain others where
      "fst (try_candidates svc prompt (y # ys) 0 None (y # ys)) = y # others"
      using try_candidates_first by blast
    then show ?thesis
      using c by (auto simp: call_github_models_def split: prod.splits sum.splits)
  qed
  ultimately show ?thesis
    using ne by blast
qed

theorem candidates_never_empty_witness:
  "init [''GITHUB_TOKEN'' \<mapsto> ''t'', ''GITHUB_MODEL_CANDIDATES'' \<mapsto> '' , ,'']
   = Inr \<lparr>github_token = ''t'', model_endpoint = ''https://models.github.ai/inference'',
          model_id = ''openai/gpt-5'',
          model_candidates = [''openai/gpt-5'', ''openai/gpt-4o-mini'', ''openai/gpt-4o'']\<rparr>
   \<and> list_all (\<lambda>c. c = CHR '','' \<or> is_space c)
        (getenv [''GITHUB_TOKEN'' \<mapsto> ''t'', ''GITHUB_MODEL_CANDIDATES'' \<mapsto> '' , ,'']
           ''GITHUB_MODEL_CANDIDATES'' [])
   \<and> model_candidates
        \<lparr>github_token = ''t'', model_endpoint = ''https://models.github.ai/inference'',
          model_id = ''openai/gpt-5'',
          model_candidates = [''openai/gpt-5'', ''openai/gpt-4o-mini'', ''openai/gpt-4o'']\<rparr>
     = [getenv [''GITHUB_TOKEN'' \<mapsto> ''t'', ''GITHUB_MODEL_CANDIDATES'' \<mapsto> '' , ,'']
          ''GITHUB_MODEL_ID'' ''openai/gpt-5'',
        ''openai/gpt-4o-mini'', ''openai/gpt-4o'']"
proof -
  let ?env = "[''GITHUB_TOKEN'' \<mapsto> ''t'', ''GITHUB_MODEL_CANDIDATES'' \<mapsto> '' , ,'']"
  let ?a = "\<lparr>github_token = ''t'', model_endpoint = ''https://models.github.ai/inference'',
          model_id = ''openai/gpt-5'',
          model_candidates = [''openai/gpt-5'', ''openai/gpt-4o-mini'', ''openai/gpt-4o'']\<rparr>"
  have i: "init ?env = Inr ?a"
    by code_simp
  have l: "list_all (\<lambda>c. c = CHR '','' \<or> is_space c) (getenv ?env ''GITHUB_MODEL_CANDIDATES'' [])"
    by code_simp
  then have blank: "\<forall>c\<in>set (getenv ?env ''GITHUB_MODEL_CANDIDATES'' []). c = CHR '','' \<or> is_space c"
    unfolding list_all_iff .
  from candidates_never_empty [OF i] blank
  have "model_candidates ?a
        = [getenv ?env ''GITHUB_MODEL_ID'' ''openai/gpt-5'', ''openai/gpt-4o-mini'', ''openai/gpt-4o'']"
    by blast
  with i l show ?thesis
    by (intro conjI)
qed

section \<open>Dispatch on the file extension\<close>

lemma split_on_no_sep: "sep \<notin> set s \<Longrightarrow> split_on sep s = [s]"
  by (induction s) auto

lemma split_on_two: "sep \<in> set s \<Longrightarrow> tl (split_on sep s) \<noteq> []"
  by (induction s) (auto simp: Let_def split_on_not_Nil)

lemma last_split_on_append: "last (split_on sep (a @ sep # b)) = last (split_on sep b)"
proof (induction a)
  case Nil
  show ?case by (simp add: split_on_not_Nil)
next
  case (Cons c a)
  show ?case
  proof (cases "c = sep")
    case True
    with Cons show ?thesis by (simp add: split_on_not_Nil)
  next
    case False
    have "tl (split_on sep (a @ sep # b)) \<noteq> []"
      by (rule split_on_two) simp
    with False Cons show ?thesis
      by (simp add: Let_def last_tl)
  qed
qed

lemma last_split_on: "last (split_on sep s) = rev (takeWhile (\<lambda>c. c \<noteq> sep) (rev s))"
proof (cases "sep \<in> set s")
  case False
  then have a: "takeWhile (\<lambda>c. c \<noteq> sep) (rev s) = rev s"
    by auto
  show ?thesis
    unfolding a using False by (simp add: split_on_no_sep)
next
  case True
  then obtain a b where s: "s = a @ sep # b" and b: "sep \<notin> set b"
    using split_list_last by fast
  have "takeWhile (\<lambda>c. c \<noteq> sep) (rev b @ sep # rev a)
        = rev b @ takeWhile (\<lambda>c. c \<noteq> sep) (sep # rev a)"
    by (rule takeWhile_append2) (use b in auto)
  with s b show ?thesis
    by (simp add: last_split_on_append split_on_no_sep)
qed

lemma file_extension_eq: "file_extension name = after_last_dot (lower name)"
  by (simp add: file_extension_def after_last_dot_def last_split_on)

text \<open>
  C10: which decoder \<open>extract_text\<close> runs depends on the file name only through the part
  of the lowercased name after its last dot; the extension \<open>doc\<close> runs the same decoder
  as \<open>docx\<close>, with the same result for the same payload; and a \<open>doc\<close> payload that this
  decoder rejects makes the extraction fail, with the decoder's cause in the error.
\<close>

theorem dispatch_by_extension:
  "(after_last_dot (lower (filename f)) = after_last_dot (lower (filename g)) \<and> read f = read g \<longrightarrow>
      extract_text reader doc_reader f = extract_text reader doc_reader g)
   \<and> (after_last_dot (lower (filename f)) = ''doc'' \<and> after_last_dot (lower (filename g)) = ''docx''
        \<and> read f = read g \<longrightarrow>
      extract_text reader doc_reader f = extract_text reader doc_reader g)
   \<and> (after_last_dot (lower (filename f)) = ''doc'' \<and> read f = Inr content_bytes
        \<and> doc_reader content_bytes = Inl why \<longrightarrow>
      extract_text reader doc_reader f
      = Inl (Exception (''Error processing file: Failed to extract Word document text: '' @ why)))"
  by (auto simp: extract_text_def file_extension_eq extract_from_word_def Let_def
        split: sum.splits)

theorem dispatch_by_extension_witness:
  "after_last_dot (lower ''My.CV.DOC'') = ''doc''
   \<and> extract_text (\<lambda>b. Inr []) (\<lambda>b. Inl ''File is not a zip file'')
        \<lparr>filename = ''My.CV.DOC'', read = Inr [0xD0, 0xCF]\<rparr>
      = Inl (Exception
          ''Error processing file: Failed to extract Word document text: File is not a zip file'')
   \<and> extract_text (\<lambda>b. Inr []) (\<lambda>b. Inl ''File is not a zip file'')
        \<lparr>filename = ''My.CV.DOC'', read = Inr [0xD0, 0xCF]\<rparr>
      = extract_text (\<lambda>b. Inr []) (\<lambda>b. Inl ''File is not a zip file'')
        \<lparr>filename = ''cv.docx'', read = Inr [0xD0, 0xCF]\<rparr>"
proof -
  have d: "after_last_dot (lower ''My.CV.DOC'') = ''doc''"
    by code_simp
  have x: "after_last_dot (lower ''cv.docx'') = ''docx''"
    by code_simp
  note t = dispatch_by_extension
        [where f = "\<lparr>filename = ''My.CV.DOC'', read = Inr [0xD0, 0xCF]\<rparr>"
           and g = "\<lparr>filename = ''cv.docx'', read = Inr [0xD0, 0xCF]\<rparr>"
           and reader = "\<lambda>b. Inr []" and doc_reader = "\<lambda>b. Inl ''File is not a zip file''"
           and content_bytes = "[0xD0, 0xCF]" and why = "''File is not a zip file''"]
  from t d have e1:
    "extract_text (\<lambda>b. Inr []) (\<lambda>b. Inl ''File is not a zip file'')
        \<lparr>filename = ''My.CV.DOC'', read = Inr [0xD0, 0xCF]\<rparr>
      = Inl (Exception
          ''Error processing file: Failed to extract Word document text: File is not a zip file'')"
    by simp
  from t d x have e2:
    "extract_text (\<lambda>b. Inr []) (\<lambda>b. Inl ''File is not a zip file'')
        \<lparr>filename = ''My.CV.DOC'', read = Inr [0xD0, 0xCF]\<rparr>
      = extract_text (\<lambda>b. Inr []) (\<lambda>b. Inl ''File is not a zip file'')
        \<lparr>filename = ''cv.docx'', read = Inr [0xD0, 0xCF]\<rparr>"
    by simp
  show ?thesis
    using d e1 e2 by (intro conjI)
qed

section \<open>The relevance score\<close>

lemma count_mono:
  "\<forall>k\<in>set ks. P k \<longrightarrow> Q k \<Longrightarrow> length (filter P ks) \<le> length (filter Q ks)"
  by (induction ks) auto

text \<open>
  C8: the score does not decrease when the number of keywords found grows and the
  length does not shrink, nor when the length grows and the number of keywords found
  does not shrink; and a text in which every keyword of another text is found has at
  least as many keywords found. The length bonus is \<open>min (length div 200) 5\<close>.
\<close>

theorem score_section_monotone:
  "(keyword_hits a \<le> keyword_hits b \<and> length a \<le> length b \<longrightarrow>
      score_section a \<le> score_section b)
   \<and> ((\<forall>kw\<in>set section_keywords. contains (lower a) kw \<longrightarrow> contains (lower b) kw) \<longrightarrow>
        keyword_hits a \<le> keyword_hits b)
   \<and> score_section a = keyword_hits a + min (length a div 200) 5"
proof -
  have "min (length a div 200) 5 \<le> min (length b div 200) 5" if "length a \<le> length b"
    using that div_le_mono [of "length a" "length b" 200] by simp
  moreover have "keyword_hits a \<le> keyword_hits b"
    if "\<forall>kw\<in>set section_keywords. contains (lower a) kw \<longrightarrow> contains (lower b) kw"
    unfolding keyword_hits_def Let_def using that by (rule count_mono)
  ultimately show ?thesis
    by (auto simp: score_section_def)
qed

theorem score_section_monotone_witness:
  "list_all (\<lambda>kw. \<not> contains (lower ''Skills'') kw \<or> contains (lower ''skills, Awards'') kw)
     section_keywords
   \<and> keyword_hits ''Skills'' \<le> keyword_hits ''skills, Awards''
   \<and> score_section ''Skills'' \<le> score_section ''skills, Awards''"
proof -
  have l: "list_all (\<lambda>kw. \<not> contains (lower ''Skills'') kw \<or> contains (lower ''skills, Awards'') kw)
             section_keywords"
    by code_simp
  then have "\<forall>kw\<in>set section_keywords.
               contains (lower ''Skills'') kw \<longrightarrow> contains (lower ''skills, Awards'') kw"
    unfolding list_all_iff by blast
  then have hits: "keyword_hits ''Skills'' \<le> keyword_hits ''skills, Awards''"
    by (rule mp [OF conjunct1 [OF conjunct2 [OF score_section_monotone]]])
  then have "keyword_hits ''Skills'' \<le> keyword_hits ''skills, Awards''
        \<and> length ''Skills'' \<le> length ''skills, Awards''"
    by simp
  then have "score_section ''Skills'' \<le> score_section ''skills, Awards''"
    by (rule mp [OF conjunct1 [OF score_section_monotone]])
  with l hits show ?thesis
    by (intro conjI)
qed

section \<open>The profile page extractor\<close>

text \<open>
  C4: the extractor returns a text for every URL and every behaviour of the network
  and of the parser, since each of their failures is a branch of the function. A URL
  without \<open>linkedin.com\<close> gives the empty text and no request; a request that raises, a
  status other than 200 and a parser that raises give the empty text; and no returned
  text is longer than 30000 characters.
\<close>

theorem fetch_profile_text_total:
  "length (fst (fetch_profile_text_sync requests_get beautiful_soup url)) \<le> 30000
   \<and> (\<not> contains url ''linkedin.com'' \<longrightarrow>
        fetch_profile_text_sync requests_get beautiful_soup url = ([], []))
   \<and> (requests_get url = RequestRaises \<longrightarrow>
        fst (fetch_profile_text_sync requests_get beautiful_soup url) = [])
   \<and> (\<forall>status html. requests_get url = HttpResponse status html
          \<and> (status \<noteq> 200 \<or> beautiful_soup html = None) \<longrightarrow>
        fst (fetch_profile_text_sync requests_get beautiful_soup url) = [])"
  by (auto simp: fetch_profile_text_sync_def split: http_outcome.splits option.splits)

theorem fetch_profile_text_total_witness:
  "\<not> contains ''https://example.com/not-linkedin'' ''linkedin.com''
   \<and> fetch_profile_text_sync (\<lambda>u. HttpResponse 200 ''<html></html>'') (\<lambda>h. None)
        ''https://example.com/not-linkedin'' = ([], [])
   \<and> fst (fetch_profile_text_sync (\<lambda>u. HttpResponse 200 ''<html></html>'') (\<lambda>h. None)
        ''https://www.linkedin.com/in/x'') = []"
proof -
  have n: "\<not> contains ''https://example.com/not-linkedin'' ''linkedin.com''"
    by code_simp
  have "fetch_profile_text_sync (\<lambda>u. HttpResponse 200 ''<html></html>'') (\<lambda>h. None)
          ''https://example.com/not-linkedin'' = ([], [])"
    using n fetch_profile_text_total
              [where requests_get = "\<lambda>u. HttpResponse 200 ''<html></html>''"
                 and beautiful_soup = "\<lambda>h. None" and url = "''https://example.com/not-linkedin''"]
    by blast
  moreover have "fst (fetch_profile_text_sync (\<lambda>u. HttpResponse 200 ''<html></html>'') (\<lambda>h. None)
        ''https://www.linkedin.com/in/x'') = []"
    using fetch_profile_text_total
              [where requests_get = "\<lambda>u. HttpResponse 200 ''<html></html>''"
                 and beautiful_soup = "\<lambda>h. None" and url = "''https://www.linkedin.com/in/x''"]
    by blast
  ultimately show ?thesis
    using n by (intro conjI)
qed

section \<open>Ranking of the candidate elements\<close>

lemma sorted_filter_nth:
  "sorted_wrt R (filter P ys) \<Longrightarrow> i < j \<Longrightarrow> j < length ys \<Longrightarrow> P (ys ! i) \<Longrightarrow> P (ys ! j)
   \<Longrightarrow> R (ys ! i) (ys ! j)"
proof (induction ys arbitrary: i j)
  case Nil
  then show ?case by simp
next
  case (Cons y ys)
  from Cons.prems(2) obtain j' where j: "j = Suc j'"
    by (cases j) auto
  show ?case
  proof (cases i)
    case 0
    with Cons.prems have "P y" and "P (ys ! j')" and "j' < length ys"
      using j by auto
    then have "ys ! j' \<in> set (filter P ys)"
      by simp
    with Cons.prems(1) \<open>P y\<close> show ?thesis
      using 0 j by auto
  next
    case (Suc i')
    have "sorted_wrt R (filter P ys)"
      using Cons.prems(1) by (cases "P y") auto
    from Cons.IH [OF this, of i' j'] Cons.prems Suc j show ?thesis
      by simp
  qed
qed

lemma select_tag: "a \<in> set (select t es) \<Longrightarrow> node_tag (es ! a) = t"
  by (simp add: select_def)

lemma select_sorted: "sorted_wrt (collected_before es) (select t es)"
proof -
  have ascending: "sorted_wrt (<) (select t es)"
    unfolding select_def by (rule sorted_wrt_filter) simp
  show ?thesis
  proof (rule sorted_wrt_mono_rel [OF _ ascending])
    fix x y
    assume "x \<in> set (select t es)" and "y \<in> set (select t es)" and "x < y"
    then show "collected_before es x y"
      by (simp add: collected_before_def select_tag)
  qed
qed

lemma candidates_sorted: "sorted_wrt (collected_before es) (candidates es)"
proof -
  have "collected_before es a b"
    if "node_tag (es ! a) = s" "node_tag (es ! b) = t" "selector_rank s < selector_rank t" for a b s t
    using that by (simp add: collected_before_def)
  then show ?thesis
    by (auto simp: candidates_def sorted_wrt_append select_sorted dest!: select_tag)
qed

text \<open>
  C6, as stated: two kept candidates of equal score are in document order. They are not
  when their names differ: a \<open>div\<close> that stands before a \<open>section\<close> of the same score is
  ranked after it, because the candidates are collected selector by selector.
\<close>

theorem ties_not_in_document_order:
  "top_sections [\<lparr>node_tag = Div, node_text = ''About''\<rparr>, \<lparr>node_tag = Section, node_text = ''Skills''\<rparr>]
     = [1, 0]
   \<and> score_section ''About'' = score_section ''Skills''"
  by code_simp

text \<open>
  C6, amended: the kept candidates are in descending order of score, and two of equal
  score are in the order in which they were collected: a \<open>section\<close> before a \<open>main\<close> before
  a \<open>div\<close>, and two elements of the same name in document order.
\<close>

theorem ties_keep_collection_order:
  assumes "i < j" and "j < length (top_sections es)"
  shows "node_score es (top_sections es ! j) \<le> node_score es (top_sections es ! i)
         \<and> (node_score es (top_sections es ! i) = node_score es (top_sections es ! j) \<longrightarrow>
              selector_rank (node_tag (es ! (top_sections es ! i)))
                < selector_rank (node_tag (es ! (top_sections es ! j)))
              \<or> (node_tag (es ! (top_sections es ! i)) = node_tag (es ! (top_sections es ! j))
                  \<and> top_sections es ! i < top_sections es ! j))"
proof -
  let ?key = "\<lambda>i. - int (node_score es i)"
  let ?ys = "sort_key ?key (candidates es)"
  from assms have len: "j < length ?ys" and ij: "i < length ?ys"
    by (simp_all add: top_sections_def)
  from assms have nth: "top_sections es ! i = ?ys ! i" "top_sections es ! j = ?ys ! j"
    by (simp_all add: top_sections_def)
  have "sorted (map ?key ?ys)"
    by (rule sorted_sort_key)
  then have "map ?key ?ys ! i \<le> map ?key ?ys ! j"
    using assms(1) len by (intro sorted_nth_mono) simp_all
  then have desc: "node_score es (?ys ! j) \<le> node_score es (?ys ! i)"
    using len ij by simp
  have tie: "collected_before es (?ys ! i) (?ys ! j)"
    if eq: "node_score es (?ys ! i) = node_score es (?ys ! j)"
  proof -
    let ?k = "?key (?ys ! j)"
    have "filter (\<lambda>y. ?key y = ?k) ?ys = filter (\<lambda>y. ?key y = ?k) (candidates es)"
      by (rule sort_key_stable)
    moreover have "sorted_wrt (collected_before es) (filter (\<lambda>y. ?key y = ?k) (candidates es))"
      by (rule sorted_wrt_filter [OF candidates_sorted])
    ultimately have "sorted_wrt (collected_before es) (filter (\<lambda>y. ?key y = ?k) ?ys)"
      by simp
    from sorted_filter_nth [OF this assms(1) len] eq show ?thesis
      by simp
  qed
  show ?thesis
    using desc tie by (auto simp: nth collected_before_def)
qed

theorem ties_keep_collection_order_witness:
  "top_sections
     [\<lparr>node_tag = Div, node_text = ''Skills''\<rparr>, \<lparr>node_tag = Section, node_text = ''About''\<rparr>,
      \<lparr>node_tag = Div, node_text = ''Awards''\<rparr>] = [1, 0, 2]
   \<and> top_sections
     [\<lparr>node_tag = Div, node_text = ''Skills''\<rparr>, \<lparr>node_tag = Section, node_text = ''About''\<rparr>,
      \<lparr>node_tag = Div, node_text = ''Awards''\<rparr>] ! 1
     < top_sections
     [\<lparr>node_tag = Div, node_text = ''Skills''\<rparr>, \<lparr>node_tag = Section, node_text = ''About''\<rparr>,
      \<lparr>node_tag = Div, node_text = ''Awards''\<rparr>] ! 2"
proof -
  let ?es = "[\<lparr>node_tag = Div, node_text = ''Skills''\<rparr>, \<lparr>node_tag = Section, node_text = ''About''\<rparr>,
      \<lparr>node_tag = Div, node_text = ''Awards''\<rparr>]"
  have t: "top_sections ?es = [1, 0, 2]"
    by code_simp
  have s: "node_score ?es 0 = node_score ?es 2"
    by code_simp
  have e1: "top_sections ?es ! 1 = 0" and e2: "top_sections ?es ! 2 = 2"
    by (simp_all add: t)
  have lt: "(1::nat) < 2" and len: "2 < length (top_sections ?es)"
    by (simp_all add: t)
  have score: "node_score ?es (top_sections ?es ! 1) = node_score ?es (top_sections ?es ! 2)"
    unfolding e1 e2 by (rule s)
  have rank: "\<not> selector_rank (node_tag (?es ! (top_sections ?es ! 1)))
                < selector_rank (node_tag (?es ! (top_sections ?es ! 2)))"
    unfolding e1 e2 by simp
  from ties_keep_collection_order [OF lt len] score rank
  have "top_sections ?es ! 1 < top_sections ?es ! 2"
    by blast
  with t show ?thesis
    by (intro conjI)
qed

section \<open>The reply validator\<close>

lemma and_then_Inr [simp]: "and_then (Inr x) f = f x"
  by (simp add: and_then_def)

lemma and_then_Inl [simp]: "and_then (Inl e) f = Inl e"
  by (simp add: and_then_def)

lemma py_in_dict: "map_of kvs k = Some v \<Longrightarrow> py_in k (JDict kvs) = Inr True"
  by (auto dest: map_of_SomeD intro: image_eqI [where x = "(k, v)"])

lemma py_getitem_dict: "map_of kvs k = Some v \<Longrightarrow> py_getitem (JDict kvs) k = Inr v"
  by simp

lemma parse_strength_entry: "strength_entry sd = Some s \<Longrightarrow> parse_strength sd = Inr s"
proof (cases sd)
  case (JDict kvs)
  assume "strength_entry sd = Some s"
  with JDict obtain t d where
    "map_of kvs ''title'' = Some (JStr t)" "map_of kvs ''description'' = Some (JStr d)"
    "s = Strength t d"
    by (auto split: option.splits json.splits)
  with JDict show ?thesis
    by (simp add: parse_strength_def py_in_dict py_getitem_dict del: py_in.simps py_getitem.simps)
qed simp_all

lemma parse_weakness_entry: "weakness_entry wd = Some w \<Longrightarrow> parse_weakness wd = Inr w"
proof (cases wd)
  case (JDict kvs)
  assume "weakness_entry wd = Some w"
  with JDict obtain t d s where
    "map_of kvs ''title'' = Some (JStr t)" "map_of kvs ''description'' = Some (JStr d)"
    "map_of kvs ''suggestion'' = Some (JStr s)" "w = Weakness t d s"
    by (auto split: option.splits json.splits)
  with JDict show ?thesis
    by (simp add: parse_weakness_def py_in_dict py_getitem_dict del: py_in.simps py_getitem.simps)
qed simp_all

lemma map_result_entries:
  "(\<And>x y. entry x = Some y \<Longrightarrow> f x = Inr y) \<Longrightarrow> map entry xs = map Some ys
   \<Longrightarrow> map_result f xs = Inr ys"
proof (induction xs arbitrary: ys)
  case Nil
  then show ?case by simp
next
  case (Cons x xs)
  from Cons.prems(2) obtain y ys' where ys: "ys = y # ys'" "entry x = Some y" "map entry xs = map Some ys'"
    by (cases ys) auto
  from Cons.IH [OF Cons.prems(1) ys(3)] Cons.prems(1) [OF ys(2)] ys(1) show ?case
    by simp
qed

text \<open>
  C7: a reply that parses to an object with a match percentage in range, a list of
  strengths and a list of weaknesses whose entries carry their fields as strings, and a
  summary string, is accepted whatever the lengths of the two lists are. The result holds
  exactly the entries of the reply, and a length other than 4 or 5 only adds a printed
  warning.
\<close>

theorem cardinality_mismatch_is_not_fatal:
  assumes "loads (strip_fences reply) = Loaded (JDict kvs)"
    and "map_of kvs ''match_percentage'' = Some mp"
    and "isinstance_int mp" and "0 \<le> int_value mp" and "int_value mp \<le> 100"
    and "map_of kvs ''strengths'' = Some (JList sl)"
    and "map strength_entry sl = map Some ss"
    and "map_of kvs ''weaknesses'' = Some (JList wl)"
    and "map weakness_entry wl = map Some ws"
    and "map_of kvs ''summary'' = Some (JStr sm)"
  shows "parse_analysis_response loads reply
         = (count_warnings ss ws,
            Inr \<lparr>match_percentage = int_value mp, strengths = ss, weaknesses = ws, summary = sm\<rparr>)
         \<and> length ss = length sl \<and> length ws = length wl
         \<and> (count_warnings ss ws = [] \<longleftrightarrow> length sl = 4 \<and> length wl = 5)"
proof -
  have s: "map_result parse_strength sl = Inr ss"
    using parse_strength_entry assms(7) by (rule map_result_entries)
  have w: "map_result parse_weakness wl = Inr ws"
    using parse_weakness_entry assms(9) by (rule map_result_entries)
  have "parse_fields (JDict kvs) = Inr (mp, ss, ws)"
    using assms(2-6,8,10) s w
    by (simp add: parse_fields_def py_in_dict py_getitem_dict del: py_in.simps py_getitem.simps)
  then have "validate (JDict kvs)
        = (count_warnings ss ws,
           Inr \<lparr>match_percentage = int_value mp, strengths = ss, weaknesses = ws, summary = sm\<rparr>)"
    using assms(10) by (simp add: validate_def py_getitem_dict del: py_getitem.simps)
  moreover have "length ss = length sl"
    using assms(7) by (metis length_map)
  moreover have "length ws = length wl"
    using assms(9) by (metis length_map)
  ultimately show ?thesis
    using assms(1) by (simp add: parse_analysis_response_def count_warnings_def)
qed

theorem cardinality_mismatch_is_not_fatal_witness:
  "parse_analysis_response
     (\<lambda>s. Loaded (JDict [(''match_percentage'', JInt 70),
                       (''strengths'',
                        JList [JDict [(''title'', JStr ''Python''), (''description'', JStr ''Five years'')]]),
                       (''weaknesses'', JList []), (''summary'', JStr ''ok'')]))
     ''{}''
   = ([''Warning: Expected 4 strengths, got 1'', ''Warning: Expected 5 weaknesses, got 0''],
      Inr \<lparr>match_percentage = 70, strengths = [Strength ''Python'' ''Five years''],
           weaknesses = [], summary = ''ok''\<rparr>)"
proof -
  let ?kvs = "[(''match_percentage'', JInt 70),
               (''strengths'',
                JList [JDict [(''title'', JStr ''Python''), (''description'', JStr ''Five years'')]]),
               (''weaknesses'', JList []), (''summary'', JStr ''ok'')]"
  have cw: "count_warnings [Strength ''Python'' ''Five years''] []
            = [''Warning: Expected 4 strengths, got 1'', ''Warning: Expected 5 weaknesses, got 0'']"
    by code_simp
  have "parse_analysis_response (\<lambda>s. Loaded (JDict ?kvs)) ''{}''
        = (count_warnings [Strength ''Python'' ''Five years''] [],
           Inr \<lparr>match_percentage = int_value (JInt 70),
                strengths = [Strength ''Python'' ''Five years''], weaknesses = [],
                summary = ''ok''\<rparr>)"
    using cardinality_mismatch_is_not_fatal
            [where loads = "\<lambda>s. Loaded (JDict ?kvs)" and reply = "''{}''" and kvs = "?kvs"
               and mp = "JInt 70"
               and sl = "[JDict [(''title'', JStr ''Python''), (''description'', JStr ''Five years'')]]"
               and ss = "[Strength ''Python'' ''Five years'']" and wl = "[]" and ws = "[]"
               and sm = "''ok''"]
    by simp
  then show ?thesis
    by (simp add: cw)
qed

lemma validate_rejects_percentage:
  assumes "py_getitem d ''match_percentage'' = Inr mp"
    and "\<not> isinstance_int mp \<or> int_value mp < 0 \<or> 100 < int_value mp"
  shows "\<exists>c. validate d = ([], Inl c)"
proof (cases "check_required ''Missing required field: ''
                 [''match_percentage'', ''strengths'', ''weaknesses'', ''summary''] d")
  case (Inl c)
  then show ?thesis by (simp add: validate_def parse_fields_def)
next
  case (Inr u)
  with assms show ?thesis by (auto simp: validate_def parse_fields_def)
qed

text \<open>
  C3: a reply whose match percentage is not an integer must be rejected. A reply whose
  match percentage is the JSON value \<open>true\<close> is accepted, with the percentage 1:
  \<open>isinstance(True, int)\<close> holds, and \<open>True\<close> is neither below 0 nor above 100.
\<close>

theorem boolean_match_percentage_accepted:
  \<open>parse_analysis_response
     (\<lambda>s. if s = ''{"match_percentage": true, "strengths": [], "weaknesses": [], "summary": "ok"}''
          then Loaded (JDict [(''match_percentage'', JBool True), (''strengths'', JList []),
                              (''weaknesses'', JList []), (''summary'', JStr ''ok'')])
          else JSONDecodeError ''Expecting value'')
     ''```json{"match_percentage": true, "strengths": [], "weaknesses": [], "summary": "ok"}```''
   = ([''Warning: Expected 4 strengths, got 0'', ''Warning: Expected 5 weaknesses, got 0''],
      Inr \<lparr>match_percentage = 1, strengths = [], weaknesses = [], summary = ''ok''\<rparr>)\<close>
  by code_simp

end
